theory Spec2Isabelle
  imports Complex_Main "HOL-Library.Multiset" "HOL-Library.AList"
begin

section \<open>Numbers\<close>

text \<open>
  The search of \<^verbatim>\<open>find-combinations.js\<close> works on JavaScript numbers. A number is
  modelled as \<open>NaN\<close> or an exact rational: the roll tables hold short decimals, and
  sums of a handful of them are taken as their exact values. Infinities, the negative
  zero and the binary rounding error of a double are outside the model.

  \<open>NaN\<close> is what \<^verbatim>\<open>Number(target)\<close> yields for a target that cannot be read as a
  number; every comparison with it is false.
\<close>

datatype jsnum = NaN | Fin rat

text \<open>\<^verbatim>\<open>a === b\<close> on numbers.\<close>

fun strict_eq :: "jsnum \<Rightarrow> jsnum \<Rightarrow> bool" where
  "strict_eq (Fin a) (Fin b) = (a = b)"
| "strict_eq _ _ = False"

text \<open>\<^verbatim>\<open>a >= b\<close> on numbers.\<close>

fun greater_or_equal :: "jsnum \<Rightarrow> jsnum \<Rightarrow> bool" where
  "greater_or_equal (Fin a) (Fin b) = (b \<le> a)"
| "greater_or_equal _ _ = False"


text \<open>\<^verbatim>\<open>Math.round\<close>: the nearest integer, a tie going up.\<close>

definition Math_round :: "rat \<Rightarrow> rat" where
  "Math_round n = of_int \<lfloor>n + 1 / 2\<rfloor>"

text \<open>\<^verbatim>\<open>const round1 = (n) => { return Math.round(n * 10) / 10; }\<close>\<close>

definition round1 :: "rat \<Rightarrow> rat" where
  "round1 n = Math_round (n * 10) / 10"

section \<open>The search\<close>

text \<open>
  What the code can throw: iterating \<^verbatim>\<open>undefined\<close> in a \<^verbatim>\<open>for ... of\<close>, and
  calling \<^verbatim>\<open>undefined\<close>. Both are a \<^verbatim>\<open>TypeError\<close> in JavaScript.
\<close>

datatype error = NotIterable | NotAFunction

text \<open>
  \<^verbatim>\<open>subsetSum(possibleRolls, target, found, oneDecimal, partials = [])\<close>.
  The array \<open>found\<close> is pushed to in place; the model takes it and returns it
  updated. \<open>possibleRolls\<close> is an array of numbers or \<^verbatim>\<open>undefined\<close> (\<open>None\<close>),
  which is what a failed table lookup passes in. The recursion descends only from a
  node of at most six elements, so seven minus the length of \<open>partials\<close> decreases.
\<close>

function subsetSum ::
  "rat list option \<Rightarrow> jsnum \<Rightarrow> rat list list \<Rightarrow> bool \<Rightarrow> rat list \<Rightarrow> error + rat list list"
where
  "subsetSum possibleRolls target found oneDecimal partials =
    (let sum = (if oneDecimal
                then round1 (foldl (\<lambda>acc n. acc + n) 0 partials)
                else Math_round (foldl (\<lambda>acc n. acc + n) 0 partials));
         found1 = (if strict_eq (Fin sum) target then found @ [partials] else found)
     in if greater_or_equal (Fin sum) target then Inr found1
        else if length partials > 6 then Inr found1
        else (case possibleRolls of
                None \<Rightarrow> Inl NotIterable
              | Some rolls \<Rightarrow>
                  fold (\<lambda>roll acc.
                          case acc of
                            Inl e \<Rightarrow> Inl e
                          | Inr f \<Rightarrow> subsetSum possibleRolls target f oneDecimal (partials @ [roll]))
                       rolls (Inr found1)))"
  by pat_completeness auto
termination
  by (relation "measure (\<lambda>(possibleRolls, target, found, oneDecimal, partials). 7 - length partials)")
     auto

declare subsetSum.simps [simp del]

text \<open>
  The same function with the depth of the recursion counted down: \<open>None\<close> when a call
  is reached with no fuel left.
\<close>

fun subsetSum_fuel ::
  "nat \<Rightarrow> rat list option \<Rightarrow> jsnum \<Rightarrow> rat list list \<Rightarrow> bool \<Rightarrow> rat list
     \<Rightarrow> (error + rat list list) option"
where
  "subsetSum_fuel 0 possibleRolls target found oneDecimal partials = None"
| "subsetSum_fuel (Suc fuel) possibleRolls target found oneDecimal partials =
    (let sum = (if oneDecimal
                then round1 (foldl (\<lambda>acc n. acc + n) 0 partials)
                else Math_round (foldl (\<lambda>acc n. acc + n) 0 partials));
         found1 = (if strict_eq (Fin sum) target then found @ [partials] else found)
     in if greater_or_equal (Fin sum) target then Some (Inr found1)
        else if length partials > 6 then Some (Inr found1)
        else (case possibleRolls of
                None \<Rightarrow> Some (Inl NotIterable)
              | Some rolls \<Rightarrow>
                  fold (\<lambda>roll acc.
                          case acc of
                            None \<Rightarrow> None
                          | Some (Inl e) \<Rightarrow> Some (Inl e)
                          | Some (Inr f) \<Rightarrow>
                              subsetSum_fuel fuel possibleRolls target f oneDecimal (partials @ [roll]))
                       rolls (Some (Inr found1))))"

text \<open>
  The number of calls of \<open>subsetSum\<close> that one call makes, itself included, on an
  array of candidates.
\<close>

function subsetSum_calls :: "rat list \<Rightarrow> jsnum \<Rightarrow> bool \<Rightarrow> rat list \<Rightarrow> nat" where
  "subsetSum_calls rolls target oneDecimal partials =
    (let sum = (if oneDecimal
                then round1 (foldl (\<lambda>acc n. acc + n) 0 partials)
                else Math_round (foldl (\<lambda>acc n. acc + n) 0 partials))
     in if greater_or_equal (Fin sum) target then 1
        else if length partials > 6 then 1
        else 1 + fold (\<lambda>roll acc. acc + subsetSum_calls rolls target oneDecimal (partials @ [roll]))
                      rolls 0)"
  by pat_completeness auto
termination
  by (relation "measure (\<lambda>(rolls, target, oneDecimal, partials). 7 - length partials)") auto

declare subsetSum_calls.simps [simp del]

section \<open>Removing the duplicates\<close>

text \<open>
  \<open>combinationsFound\<close> is a plain object keyed by the string form of a sorted
  combination, \<^verbatim>\<open>"a,b,c"\<close>. Two sequences of finite numbers have the same string
  form exactly when they are equal, so the model keys the object by the sequence
  itself. An assignment to a key that is present replaces the value in place, one to
  a new key appends: \<open>AList.update\<close>.

  \<^verbatim>\<open>Object.values\<close> lists the keys that are array indices first, in ascending
  numeric order, then the others in the order in which they were created. The key of
  a combination is an array index exactly when the combination is a single integer
  from 0 to \<open>2^32 - 2\<close>.
\<close>

fun array_index :: "rat list \<Rightarrow> nat option" where
  "array_index [n] =
     (if of_int \<lfloor>n\<rfloor> = n \<and> 0 \<le> n \<and> n < 4294967295 then Some (nat \<lfloor>n\<rfloor>) else None)"
| "array_index _ = None"

definition Object_values :: "(rat list \<times> 'v) list \<Rightarrow> 'v list" where
  "Object_values obj =
     map snd (sort_key (\<lambda>(k, v). case array_index k of Some i \<Rightarrow> i | None \<Rightarrow> 0)
                (filter (\<lambda>(k, v). array_index k \<noteq> None) obj))
     @ map snd (filter (\<lambda>(k, v). array_index k = None) obj)"

text \<open>\<^verbatim>\<open>DECIMAL_STATS.includes(stat)\<close>; \<open>stat\<close> is \<open>None\<close> when the caller passes none.\<close>

definition Array_includes :: "string list \<Rightarrow> string option \<Rightarrow> bool" where
  "Array_includes xs stat = (case stat of None \<Rightarrow> False | Some s \<Rightarrow> s \<in> set xs)"

text \<open>
  \<^verbatim>\<open>findCombos(possibleRolls, target, stat)\<close>. The table \<open>DECIMAL_STATS\<close> comes
  from \<^verbatim>\<open>artifact-data\<close> and is a parameter. \<open>target\<close> is the value of
  \<^verbatim>\<open>Number(target)\<close>, the first statement of the function. The sort
  \<^verbatim>\<open>combo.sort((n1, n2) => (n1 - n2))\<close> is ascending.
\<close>

definition findCombos ::
  "string list \<Rightarrow> rat list option \<Rightarrow> jsnum \<Rightarrow> string option \<Rightarrow> error + rat list list"
where
  "findCombos DECIMAL_STATS possibleRolls target stat =
    (let oneDecimal = Array_includes DECIMAL_STATS stat
     in case subsetSum possibleRolls target [] oneDecimal [] of
          Inl e \<Rightarrow> Inl e
        | Inr found \<Rightarrow>
            (let combinationsFoundRaw = map sort found;
                 combinationsFound =
                   fold (\<lambda>(combo, i) obj. AList.update combo i obj)
                        (zip combinationsFoundRaw [0 ..< length combinationsFoundRaw]) []
             in Inr (map (\<lambda>i. combinationsFoundRaw ! i) (Object_values combinationsFound))))"

section \<open>The estimator\<close>

text \<open>
  A property of an object: not there, there and \<^verbatim>\<open>undefined\<close>, or there with a value.
\<close>

datatype 'a property = Missing | Undefined | Defined 'a

text \<open>
  A substat of an artifact. \<open>amount\<close> is the number that \<^verbatim>\<open>Number\<close> reads from the
  stored amount (\<^verbatim>\<open>"12.8"\<close> is \<open>Fin (64 / 5)\<close>); \<open>weight\<close> and \<open>numRolls\<close> are the
  properties that \<open>ratePower\<close> writes.
\<close>

record substat =
  stat :: string
  amount :: jsnum
  weight :: "rat property"
  numRolls :: "rat list list property"

record artifact =
  name :: string
  slot :: string
  level :: string
  mainStat :: string
  mainStatAmount :: string
  substats :: "substat list"

text \<open>
  The value bound to the name \<open>findCombos\<close> in the estimator's module: a function of
  three parameters, or \<^verbatim>\<open>undefined\<close>.
\<close>

type_synonym finder = "rat list option \<Rightarrow> jsnum \<Rightarrow> string option \<Rightarrow> error + rat list list"

text \<open>
  \<^verbatim>\<open>find-combinations.js\<close> ends with \<^verbatim>\<open>module.exports = findCombos\<close>: the module
  is the function. The estimator reads
  \<^verbatim>\<open>const { findCombos } = require("../find-combinations.js")\<close>, the property
  \<open>findCombos\<close> of that function, which it does not have: the name is bound to
  \<^verbatim>\<open>undefined\<close>.
\<close>

definition required_findCombos :: "finder option" where
  "required_findCombos = None"

text \<open>
  \<^verbatim>\<open>sub.weight = SUBSTAT_WEIGHTING[sub.stat]\<close>. The table comes from
  \<^verbatim>\<open>artifact-data\<close> and is a parameter; a kind that it does not have reads as
  \<^verbatim>\<open>undefined\<close>, and that is what is written.
\<close>

definition write_weight :: "(string \<rightharpoonup> rat) \<Rightarrow> substat \<Rightarrow> substat" where
  "write_weight SUBSTAT_WEIGHTING sub =
     sub\<lparr>weight := (case SUBSTAT_WEIGHTING (stat sub) of
                        None \<Rightarrow> Undefined
                      | Some w \<Rightarrow> Defined w)\<rparr>"

text \<open>
  The call \<^verbatim>\<open>findCombos(rolls, amount)\<close> of the estimator: two arguments, so the
  third parameter of the function is \<^verbatim>\<open>undefined\<close>; calling \<^verbatim>\<open>undefined\<close>
  throws.
\<close>

definition call_findCombos :: "finder option \<Rightarrow> rat list option \<Rightarrow> jsnum \<Rightarrow> error + rat list list" where
  "call_findCombos findCombos_bound rolls amount_read =
     (case findCombos_bound of
        None \<Rightarrow> Inl NotAFunction
      | Some f \<Rightarrow> f rolls amount_read None)"

text \<open>
  The callback of \<^verbatim>\<open>artifact.substats.map\<close>, run over the substats from left to
  right. It writes \<open>weight\<close>, calls \<open>findCombos\<close> on the entry of
  \<open>POSSIBLE_SUBSTAT_ROLLS\<close> for the kind (a parameter as well; \<open>None\<close> where the
  table has no entry) and writes \<open>numRolls\<close>; an exception of the call ends the loop
  with the remaining substats untouched. The result is the exception, if any, and
  the substats as the loop leaves them.
\<close>

fun rate_substats ::
  "(string \<rightharpoonup> rat list) \<Rightarrow> (string \<rightharpoonup> rat) \<Rightarrow> finder option \<Rightarrow> substat list
     \<Rightarrow> error option \<times> substat list"
where
  "rate_substats POSSIBLE_SUBSTAT_ROLLS SUBSTAT_WEIGHTING findCombos_bound [] = (None, [])"
| "rate_substats POSSIBLE_SUBSTAT_ROLLS SUBSTAT_WEIGHTING findCombos_bound (sub # rest) =
    (let sub1 = write_weight SUBSTAT_WEIGHTING sub
     in case call_findCombos findCombos_bound (POSSIBLE_SUBSTAT_ROLLS (stat sub1)) (amount sub1) of
          Inl e \<Rightarrow> (Some e, sub1 # rest)
        | Inr combos \<Rightarrow>
            (let sub2 = sub1\<lparr>numRolls := Defined combos\<rparr>;
                 (e, rest') = rate_substats POSSIBLE_SUBSTAT_ROLLS SUBSTAT_WEIGHTING
                                findCombos_bound rest
             in (e, sub2 # rest')))"

text \<open>
  What a call of \<open>ratePower\<close> leaves behind: the exception it threw, if any; the
  artifact it was given, as it is after the call; and the array handed to
  \<^verbatim>\<open>console.log\<close> when the call gets that far. The callback returns nothing, so that
  array holds \<^verbatim>\<open>undefined\<close> once for each substat. \<open>ratePower\<close> itself returns
  nothing.
\<close>

record outcome =
  thrown :: "error option"
  entity :: artifact
  logged :: "unit list option"

definition ratePower ::
  "(string \<rightharpoonup> rat list) \<Rightarrow> (string \<rightharpoonup> rat) \<Rightarrow> finder option \<Rightarrow> artifact \<Rightarrow> outcome"
where
  "ratePower POSSIBLE_SUBSTAT_ROLLS SUBSTAT_WEIGHTING findCombos_bound artifact =
    (let (e, subs) = rate_substats POSSIBLE_SUBSTAT_ROLLS SUBSTAT_WEIGHTING findCombos_bound
                       (substats artifact)
     in \<lparr>thrown = e,
         entity = artifact\<lparr>substats := subs\<rparr>,
         logged = (if e = None then Some (map (\<lambda>sub. ()) subs) else None)\<rparr>)"

text \<open>The artifact of the module, \<^verbatim>\<open>TEST_ARTIFACT\<close>, on which it calls \<open>ratePower\<close>.\<close>

definition TEST_ARTIFACT :: artifact where
  "TEST_ARTIFACT =
     \<lparr>name = ''Viridescent Venerer's Vessel'', slot = ''goblet'', level = ''20'',
      mainStat = ''Atk%'', mainStatAmount = ''46.6'',
      substats =
        [\<lparr>stat = ''critRate'', amount = Fin (64 / 5), weight = Missing, numRolls = Missing\<rparr>,
         \<lparr>stat = ''critDmg'', amount = Fin 14, weight = Missing, numRolls = Missing\<rparr>,
         \<lparr>stat = ''Def%'', amount = Fin (29 / 5), weight = Missing, numRolls = Missing\<rparr>,
         \<lparr>stat = ''Def'', amount = Fin 21, weight = Missing, numRolls = Missing\<rparr>]\<rparr>"

section \<open>Notions of the specification\<close>

text \<open>The rounded sum of a sequence under a rounding mode.\<close>

definition rounded_sum :: "bool \<Rightarrow> rat list \<Rightarrow> rat" where
  "rounded_sum oneDecimal xs = (if oneDecimal then round1 (sum_list xs) else Math_round (sum_list xs))"


text \<open>
  A node of the search halts when its rounded sum is at or above the target or it has
  more than six elements; it is a hit when its rounded sum equals the target.
\<close>

definition halts :: "jsnum \<Rightarrow> bool \<Rightarrow> rat list \<Rightarrow> bool" where
  "halts target oneDecimal p = (greater_or_equal (Fin (rounded_sum oneDecimal p)) target \<or> 6 < length p)"

definition hit :: "jsnum \<Rightarrow> bool \<Rightarrow> rat list \<Rightarrow> bool" where
  "hit target oneDecimal p = strict_eq (Fin (rounded_sum oneDecimal p)) target"

definition record_hit :: "jsnum \<Rightarrow> bool \<Rightarrow> rat list \<Rightarrow> rat list list \<Rightarrow> rat list list" where
  "record_hit target oneDecimal p found = (if hit target oneDecimal p then found @ [p] else found)"

text \<open>
  The nodes that the search visits below \<open>p\<close>: the extensions of \<open>p\<close> by candidates
  in which no node before the last halts. The hits among them are what the search
  records.
\<close>

definition reached :: "rat list \<Rightarrow> jsnum \<Rightarrow> bool \<Rightarrow> rat list \<Rightarrow> rat list set" where
  "reached rolls target oneDecimal p =
     {q. \<exists>ext. q = p @ ext \<and> set ext \<subseteq> set rolls \<and>
               (\<forall>k < length ext. \<not> halts target oneDecimal (p @ take k ext))}"

definition hits :: "rat list \<Rightarrow> jsnum \<Rightarrow> bool \<Rightarrow> rat list \<Rightarrow> rat list set" where
  "hits rolls target oneDecimal p = {q \<in> reached rolls target oneDecimal p. hit target oneDecimal q}"

text \<open>A substat with the two properties that \<open>ratePower\<close> writes taken away.\<close>

definition unrated :: "substat \<Rightarrow> substat" where
  "unrated sub = sub\<lparr>weight := Missing, numRolls := Missing\<rparr>"

text \<open>
  The tables of \<^verbatim>\<open>artifact-data\<close> are parameters throughout. Where a concrete
  input needs them, these stand in: the rolls of four kinds, their weights, and the
  kinds that are shown with one decimal.
\<close>

definition example_ROLLS :: "string \<rightharpoonup> rat list" where
  "example_ROLLS =
     [''critRate'' \<mapsto> [27 / 10, 31 / 10, 35 / 10, 39 / 10],
      ''critDmg'' \<mapsto> [54 / 10, 62 / 10, 7, 78 / 10],
      ''Def%'' \<mapsto> [51 / 10, 58 / 10, 66 / 10, 73 / 10],
      ''Def'' \<mapsto> [16, 19, 21, 23]]"

definition example_WEIGHTING :: "string \<rightharpoonup> rat" where
  "example_WEIGHTING = [''critRate'' \<mapsto> 1, ''critDmg'' \<mapsto> 1, ''Def%'' \<mapsto> 1 / 2, ''Def'' \<mapsto> 1 / 4]"

definition example_DECIMAL_STATS :: "string list" where
  "example_DECIMAL_STATS = [''critRate'', ''critDmg'', ''Def%'']"

section \<open>The search, node by node\<close>

lemma foldl_plus: "foldl (\<lambda>acc n. acc + n) a xs = a + sum_list xs" for a :: rat
  by (induction xs arbitrary: a) (simp_all add: add.assoc)

lemma reduce_sum: "foldl (\<lambda>acc n. acc + n) 0 xs = sum_list xs" for xs :: "rat list"
  by (simp add: foldl_plus)

lemma subsetSum_halts:
  "halts target od p \<Longrightarrow> subsetSum pr target found od p = Inr (record_hit target od p found)"
  by (subst subsetSum.simps) (auto simp: halts_def hit_def record_hit_def rounded_sum_def reduce_sum Let_def)

lemma subsetSum_undefined:
  "\<not> halts target od p \<Longrightarrow> subsetSum None target found od p = Inl NotIterable"
  by (subst subsetSum.simps) (auto simp: halts_def rounded_sum_def reduce_sum Let_def)

lemma subsetSum_descend:
  "\<not> halts target od p \<Longrightarrow>
   subsetSum (Some rolls) target found od p =
     fold (\<lambda>roll acc. case acc of Inl e \<Rightarrow> Inl e
                       | Inr f \<Rightarrow> subsetSum (Some rolls) target f od (p @ [roll]))
          rolls (Inr (record_hit target od p found))"
  by (subst subsetSum.simps) (auto simp: halts_def hit_def record_hit_def rounded_sum_def reduce_sum Let_def)

lemma reached_self: "p \<in> reached rolls target od p"
  by (auto simp: reached_def)

lemma reached_step:
  "reached rolls target od p =
     insert p (if halts target od p then {} else (\<Union>r \<in> set rolls. reached rolls target od (p @ [r])))"
proof (intro set_eqI iffI)
  fix q assume "q \<in> reached rolls target od p"
  then obtain ext where q: "q = p @ ext" and sub: "set ext \<subseteq> set rolls"
    and nh: "\<forall>k < length ext. \<not> halts target od (p @ take k ext)"
    by (auto simp: reached_def)
  show "q \<in> insert p (if halts target od p then {} else (\<Union>r \<in> set rolls. reached rolls target od (p @ [r])))"
  proof (cases ext)
    case Nil
    with q show ?thesis by simp
  next
    case (Cons r ext')
    from nh Cons have h0: "\<not> halts target od p" by force
    have "\<forall>k < length ext'. \<not> halts target od ((p @ [r]) @ take k ext')"
    proof (intro allI impI)
      fix k assume "k < length ext'"
      then have "Suc k < length ext" using Cons by simp
      with nh have "\<not> halts target od (p @ take (Suc k) ext)" by blast
      then show "\<not> halts target od ((p @ [r]) @ take k ext')" using Cons by simp
    qed
    then have "q \<in> reached rolls target od (p @ [r])"
      using q sub Cons by (auto simp: reached_def)
    moreover have "r \<in> set rolls" using sub Cons by simp
    ultimately show ?thesis using h0 by auto
  qed
next
  fix q assume a: "q \<in> insert p (if halts target od p then {} else (\<Union>r \<in> set rolls. reached rolls target od (p @ [r])))"
  show "q \<in> reached rolls target od p"
  proof (cases "q = p")
    case True
    then show ?thesis by (simp add: reached_self)
  next
    case False
    with a have h0: "\<not> halts target od p" by (auto split: if_splits)
    from a False h0 obtain r where r: "r \<in> set rolls" and "q \<in> reached rolls target od (p @ [r])"
      by auto
    then obtain ext where q: "q = (p @ [r]) @ ext" and sub: "set ext \<subseteq> set rolls"
      and nh: "\<forall>k < length ext. \<not> halts target od ((p @ [r]) @ take k ext)"
      by (auto simp: reached_def)
    have "\<forall>k < length (r # ext). \<not> halts target od (p @ take k (r # ext))"
    proof (intro allI impI)
      fix k assume k: "k < length (r # ext)"
      show "\<not> halts target od (p @ take k (r # ext))"
      proof (cases k)
        case 0
        then show ?thesis using h0 by simp
      next
        case (Suc j)
        then have "j < length ext" using k by simp
        with nh have "\<not> halts target od ((p @ [r]) @ take j ext)" by blast
        then show ?thesis using Suc by simp
      qed
    qed
    moreover have "q = p @ (r # ext)" using q by simp
    moreover have "set (r # ext) \<subseteq> set rolls" using r sub by simp
    ultimately show ?thesis unfolding reached_def by blast
  qed
qed

lemma hits_step:
  "hits rolls target od p =
     (if hit target od p then {p} else {}) \<union>
     (if halts target od p then {} else (\<Union>r \<in> set rolls. hits rolls target od (p @ [r])))"
  unfolding hits_def by (subst reached_step) auto

lemma fold_collect:
  assumes "\<And>roll f. roll \<in> set rolls \<Longrightarrow>
             \<exists>f'. step roll f = Inr f' \<and> set f' = set f \<union> R roll"
  shows "\<exists>f'. fold (\<lambda>roll acc. case acc of Inl e \<Rightarrow> Inl e | Inr f \<Rightarrow> step roll f) rolls (Inr f0) = Inr f'
            \<and> set f' = set f0 \<union> (\<Union>roll \<in> set rolls. R roll)"
  using assms
proof (induction rolls arbitrary: f0)
  case Nil
  then show ?case by simp
next
  case (Cons r rolls)
  from Cons.prems[of r f0] obtain f1 where f1: "step r f0 = Inr f1" "set f1 = set f0 \<union> R r"
    by auto
  from Cons.IH[of f1] Cons.prems obtain f' where
    "fold (\<lambda>roll acc. case acc of Inl e \<Rightarrow> Inl e | Inr f \<Rightarrow> step roll f) rolls (Inr f1) = Inr f'"
    "set f' = set f1 \<union> (\<Union>roll \<in> set rolls. R roll)"
    by (metis list.set_intros(2))
  then show ?case using f1 by auto
qed

lemma subsetSum_set:
  "\<exists>found'. subsetSum (Some rolls) target found od p = Inr found'
        \<and> set found' = set found \<union> hits rolls target od p"
proof (induction "Some rolls" target found od p rule: subsetSum.induct)
  case (1 target found od p)
  show ?case
  proof (cases "halts target od p")
    case True
    then show ?thesis
      by (subst hits_step) (auto simp: subsetSum_halts record_hit_def)
  next
    case False
    have ih: "\<And>roll f. roll \<in> set rolls \<Longrightarrow>
       \<exists>f'. subsetSum (Some rolls) target f od (p @ [roll]) = Inr f'
           \<and> set f' = set f \<union> hits rolls target od (p @ [roll])"
      using False
      by (intro "1.hyps"[OF refl refl]) (auto simp: halts_def rounded_sum_def reduce_sum)
    from fold_collect[where step = "\<lambda>roll f. subsetSum (Some rolls) target f od (p @ [roll])"
         and R = "\<lambda>roll. hits rolls target od (p @ [roll])" and rolls = rolls
         and ?f0.0 = "record_hit target od p found", OF ih]
    obtain f' where
      "subsetSum (Some rolls) target found od p = Inr f'"
      "set f' = set (record_hit target od p found) \<union> (\<Union>roll \<in> set rolls. hits rolls target od (p @ [roll]))"
      using False by (auto simp: subsetSum_descend)
    then show ?thesis using False
      by (subst hits_step) (auto simp: record_hit_def)
  qed
qed

section \<open>The result of \<open>findCombos\<close>\<close>

lemma mset_Object_values: "mset (Object_values obj) = mset (map snd obj)"
proof -
  define P where "P = (\<lambda>kv :: rat list \<times> 'a. case kv of (k, v) \<Rightarrow> array_index k \<noteq> None)"
  have neg: "(\<lambda>(k, v). array_index k = None) = (\<lambda>kv :: rat list \<times> 'a. \<not> P kv)"
    by (auto simp: fun_eq_iff P_def)
  have part: "filter_mset P (mset obj) + filter_mset (\<lambda>kv. \<not> P kv) (mset obj) = mset obj"
    using multiset_partition[of "mset obj" P] by simp
  have "mset (Object_values obj) =
        image_mset snd (filter_mset P (mset obj)) + image_mset snd (filter_mset (\<lambda>kv. \<not> P kv) (mset obj))"
    unfolding Object_values_def neg P_def[symmetric]
    by simp
  also have "\<dots> = image_mset snd (filter_mset P (mset obj) + filter_mset (\<lambda>kv. \<not> P kv) (mset obj))"
    by (simp only: image_mset_union)
  also have "\<dots> = image_mset snd (mset obj)"
    by (simp only: part)
  finally show ?thesis by simp
qed

lemma set_update_sub: "set (AList.update k v al) \<subseteq> insert (k, v) (set al)"
  by (induction al) auto

lemma fold_update_keys:
  "distinct (map fst obj0) \<Longrightarrow>
   distinct (map fst (fold (\<lambda>(combo, i) obj. AList.update combo i obj) kis obj0))
   \<and> fst ` set (fold (\<lambda>(combo, i) obj. AList.update combo i obj) kis obj0) = fst ` set kis \<union> fst ` set obj0
   \<and> set (fold (\<lambda>(combo, i) obj. AList.update combo i obj) kis obj0) \<subseteq> set kis \<union> set obj0"
proof (induction kis arbitrary: obj0)
  case Nil
  then show ?case by simp
next
  case (Cons ki kis)
  obtain k i where ki: "ki = (k, i)" by (cases ki)
  have d: "distinct (map fst (AList.update k i obj0))"
    using Cons.prems by (rule distinct_update)
  have s: "set (AList.update k i obj0) \<subseteq> insert (k, i) (set obj0)"
    by (rule set_update_sub)
  from Cons.IH[OF d] s show ?case
    by (simp add: ki dom_update) blast
qed

lemma dedup_result:
  fixes raw :: "rat list list"
  defines "obj \<equiv> fold (\<lambda>(combo, i) obj. AList.update combo i obj) (zip raw [0 ..< length raw]) []"
  shows "mset (map (\<lambda>i. raw ! i) (Object_values obj)) = mset (map fst obj)"
    and "distinct (map fst obj)" and "set (map fst obj) = set raw"
proof -
  have inv: "distinct (map fst obj) \<and> fst ` set obj = fst ` set (zip raw [0 ..< length raw]) \<union> fst ` set []
     \<and> set obj \<subseteq> set (zip raw [0 ..< length raw]) \<union> set []"
    unfolding obj_def using fold_update_keys[of "[]" "zip raw [0 ..< length raw]"] by simp
  show "distinct (map fst obj)" using inv by simp
  have "map fst (zip raw [0 ..< length raw]) = raw"
    by (simp add: map_fst_zip)
  then have "fst ` set (zip raw [0 ..< length raw]) = set raw"
    by (metis set_map)
  then show "set (map fst obj) = set raw" using inv by simp
  have pt: "\<And>k i. (k, i) \<in> set obj \<Longrightarrow> raw ! i = k"
  proof -
    fix k i assume "(k, i) \<in> set obj"
    then have "(k, i) \<in> set (zip raw [0 ..< length raw])" using inv by auto
    then show "raw ! i = k" by (auto simp: set_zip)
  qed
  have "mset (map (\<lambda>i. raw ! i) (Object_values obj)) = image_mset (\<lambda>i. raw ! i) (mset (Object_values obj))"
    by simp
  also have "\<dots> = mset (map (\<lambda>kv. raw ! snd kv) obj)"
    by (simp add: mset_Object_values multiset.map_comp comp_def)
  also have "map (\<lambda>kv. raw ! snd kv) obj = map fst obj"
    using pt by (intro map_cong refl) (metis prod.collapse)
  finally show "mset (map (\<lambda>i. raw ! i) (Object_values obj)) = mset (map fst obj)" .
qed

lemma findCombos_array:
  "\<exists>res. findCombos DECIMAL_STATS (Some rolls) target kind = Inr res
       \<and> distinct res
       \<and> set res = sort ` hits rolls target (Array_includes DECIMAL_STATS kind) []"
proof -
  obtain found where f: "subsetSum (Some rolls) target [] (Array_includes DECIMAL_STATS kind) [] = Inr found"
    and sf: "set found = hits rolls target (Array_includes DECIMAL_STATS kind) []"
    using subsetSum_set[of rolls target "[]" "Array_includes DECIMAL_STATS kind" "[]"] by auto
  define raw where "raw = map sort found"
  define obj where "obj = fold (\<lambda>(combo, i) obj. AList.update combo i obj) (zip raw [0 ..< length raw]) []"
  define res where "res = map (\<lambda>i. raw ! i) (Object_values obj)"
  have eq: "findCombos DECIMAL_STATS (Some rolls) target kind = Inr res"
    by (simp add: findCombos_def f Let_def res_def obj_def raw_def)
  have m: "mset res = mset (map fst obj)" and d: "distinct (map fst obj)" and s: "set (map fst obj) = set raw"
    unfolding res_def obj_def by (rule dedup_result)+
  have "distinct res" using m d by (metis mset_eq_imp_distinct_iff)
  moreover have "set res = set raw" using m s by (metis mset_eq_setD)
  ultimately show ?thesis using eq sf by (auto simp: raw_def)
qed

lemma hits_root:
  "q \<in> hits rolls target od [] \<longleftrightarrow>
     set q \<subseteq> set rolls \<and> hit target od q \<and> (\<forall>k < length q. \<not> halts target od (take k q))"
  by (auto simp: hits_def reached_def)

section \<open>Rounding\<close>









lemma hits_length: "q \<in> hits rolls target od [] \<Longrightarrow> length q \<le> 7"
proof -
  assume q: "q \<in> hits rolls target od []"
  show ?thesis
  proof (cases "q = []")
    case True
    then show ?thesis by simp
  next
    case False
    then have "length q - 1 < length q" by simp
    with q have "\<not> halts target od (take (length q - 1) q)" by (simp add: hits_root)
    then have "length (take (length q - 1) q) \<le> 6" by (simp add: halts_def)
    then show ?thesis by simp
  qed
qed

lemma hits_NaN: "hits rolls NaN od p = {}"
  by (simp add: hits_def hit_def)

lemma findCombos_length:
  assumes "findCombos DECIMAL_STATS (Some rolls) target kind = Inr res" and "c \<in> set res"
  shows "length c \<le> 7"
proof -
  from findCombos_array[of DECIMAL_STATS rolls target kind] assms
  obtain q where "c = sort q" "q \<in> hits rolls target (Array_includes DECIMAL_STATS kind) []"
    by auto
  then show ?thesis using hits_length[of q] by simp
qed


section \<open>Sorted combinations\<close>










section \<open>Depth and size of the recursion\<close>

lemma subsetSum_fuel_halts:
  "halts target od p \<Longrightarrow>
   subsetSum_fuel (Suc n) pr target found od p = Some (Inr (record_hit target od p found))"
  by (auto simp: halts_def hit_def record_hit_def rounded_sum_def reduce_sum Let_def)

lemma subsetSum_fuel_undefined:
  "\<not> halts target od p \<Longrightarrow> subsetSum_fuel (Suc n) None target found od p = Some (Inl NotIterable)"
  by (auto simp: halts_def rounded_sum_def reduce_sum Let_def)

lemma subsetSum_fuel_descend:
  "\<not> halts target od p \<Longrightarrow>
   subsetSum_fuel (Suc n) (Some rolls) target found od p =
     fold (\<lambda>roll acc. case acc of None \<Rightarrow> None
                       | Some (Inl e) \<Rightarrow> Some (Inl e)
                       | Some (Inr f) \<Rightarrow> subsetSum_fuel n (Some rolls) target f od (p @ [roll]))
          rolls (Some (Inr (record_hit target od p found)))"
  by (auto simp: halts_def hit_def record_hit_def rounded_sum_def reduce_sum Let_def)

lemma fold_fuel:
  assumes "\<And>roll f. roll \<in> set rolls \<Longrightarrow> stepF roll f = Some (step roll f)"
  shows "fold (\<lambda>roll acc. case acc of None \<Rightarrow> None
                          | Some (Inl e) \<Rightarrow> Some (Inl e)
                          | Some (Inr f) \<Rightarrow> stepF roll f) rolls (Some acc)
         = Some (fold (\<lambda>roll acc. case acc of Inl e \<Rightarrow> Inl e | Inr f \<Rightarrow> step roll f) rolls acc)"
  using assms
proof (induction rolls arbitrary: acc)
  case Nil
  then show ?case by simp
next
  case (Cons r rolls)
  show ?case
  proof (cases acc)
    case (Inl e)
    then show ?thesis using Cons.IH[of "Inl e"] Cons.prems by simp
  next
    case (Inr f)
    then show ?thesis using Cons.IH[of "step r f"] Cons.prems by simp
  qed
qed

lemma subsetSum_fuel_enough:
  "7 - length p < fuel \<Longrightarrow>
   subsetSum_fuel fuel pr target found od p = Some (subsetSum pr target found od p)"
proof (induction fuel arbitrary: found p)
  case 0
  then show ?case by simp
next
  case (Suc fuel)
  show ?case
  proof (cases "halts target od p")
    case True
    then show ?thesis by (simp add: subsetSum_fuel_halts subsetSum_halts del: subsetSum_fuel.simps)
  next
    case False
    then have len: "length p \<le> 6" by (simp add: halts_def)
    show ?thesis
    proof (cases pr)
      case None
      then show ?thesis using False
        by (simp add: subsetSum_fuel_undefined subsetSum_undefined del: subsetSum_fuel.simps)
    next
      case (Some rolls)
      have "\<And>roll f. subsetSum_fuel fuel pr target f od (p @ [roll])
                = Some (subsetSum pr target f od (p @ [roll]))"
        using Suc.prems len by (intro Suc.IH) simp
      then have ih: "\<And>roll f. subsetSum_fuel fuel (Some rolls) target f od (p @ [roll])
                = Some (subsetSum (Some rolls) target f od (p @ [roll]))"
        by (simp only: Some)
      have "fold (\<lambda>roll acc. case acc of None \<Rightarrow> None
                          | Some (Inl e) \<Rightarrow> Some (Inl e)
                          | Some (Inr f) \<Rightarrow> subsetSum_fuel fuel (Some rolls) target f od (p @ [roll]))
                 rolls (Some (Inr (record_hit target od p found)))
            = Some (fold (\<lambda>roll acc. case acc of Inl e \<Rightarrow> Inl e
                          | Inr f \<Rightarrow> subsetSum (Some rolls) target f od (p @ [roll]))
                 rolls (Inr (record_hit target od p found)))"
        by (rule fold_fuel) (rule ih)
      then show ?thesis
        unfolding Some using False
        by (simp add: subsetSum_fuel_descend subsetSum_descend del: subsetSum_fuel.simps)
    qed
  qed
qed

lemma subsetSum_calls_halts:
  "halts target od p \<Longrightarrow> subsetSum_calls rolls target od p = 1"
  by (subst subsetSum_calls.simps) (auto simp: halts_def rounded_sum_def reduce_sum Let_def)

lemma fold_add_calls: "fold (\<lambda>roll acc. acc + g roll) rolls a = a + sum_list (map g rolls)"
  for a :: nat
  by (induction rolls arbitrary: a) simp_all

lemma subsetSum_calls_descend:
  "\<not> halts target od p \<Longrightarrow>
   subsetSum_calls rolls target od p =
     1 + sum_list (map (\<lambda>roll. subsetSum_calls rolls target od (p @ [roll])) rolls)"
  by (subst subsetSum_calls.simps)
     (auto simp: halts_def rounded_sum_def reduce_sum Let_def fold_add_calls)

lemma geometric_step: "(\<Sum>i\<le>Suc n. m ^ i) = 1 + m * (\<Sum>i\<le>n. m ^ i)" for m :: nat
  by (simp add: sum.atMost_Suc_shift sum_distrib_left del: sum.atMost_Suc)

lemma sum_list_map_bound:
  "(\<And>x. x \<in> set xs \<Longrightarrow> g x \<le> b) \<Longrightarrow> sum_list (map g xs) \<le> length xs * b" for b :: nat
  by (induction xs) (auto intro: add_mono)

lemma subsetSum_calls_bound:
  "subsetSum_calls rolls target od p \<le> (\<Sum>i\<le>7 - length p. length rolls ^ i)"
proof (induction rolls target od p rule: subsetSum_calls.induct)
  case (1 rolls target od p)
  show ?case
  proof (cases "halts target od p")
    case True
    have "1 \<le> (\<Sum>i\<le>7 - length p. length rolls ^ i)"
      by (simp add: sum.atMost_shift del: sum.atMost_Suc)
    then show ?thesis using True by (simp add: subsetSum_calls_halts)
  next
    case False
    then have len: "length p \<le> 6" by (simp add: halts_def)
    then have n: "7 - length p = Suc (6 - length p)" by simp
    have ih: "\<And>roll. roll \<in> set rolls \<Longrightarrow>
       subsetSum_calls rolls target od (p @ [roll]) \<le> (\<Sum>i\<le>6 - length p. length rolls ^ i)"
    proof -
      fix roll assume r: "roll \<in> set rolls"
      have "subsetSum_calls rolls target od (p @ [roll]) \<le> (\<Sum>i\<le>7 - length (p @ [roll]). length rolls ^ i)"
        using False r
        by (intro "1.IH"[OF refl]) (auto simp: halts_def rounded_sum_def reduce_sum)
      then show "subsetSum_calls rolls target od (p @ [roll]) \<le> (\<Sum>i\<le>6 - length p. length rolls ^ i)"
        by simp
    qed
    have "sum_list (map (\<lambda>roll. subsetSum_calls rolls target od (p @ [roll])) rolls)
            \<le> length rolls * (\<Sum>i\<le>6 - length p. length rolls ^ i)"
      using ih by (rule sum_list_map_bound)
    then show ?thesis
      using False unfolding n geometric_step by (simp add: subsetSum_calls_descend)
  qed
qed

section \<open>The loop of the estimator\<close>

lemma rate_substats_throw:
  "call_findCombos fc (P (stat sub)) (amount sub) = Inl e \<Longrightarrow>
   rate_substats P W fc (sub # rest) = (Some e, write_weight W sub # rest)"
  by (simp add: write_weight_def)

lemma rate_substats_return:
  "call_findCombos fc (P (stat sub)) (amount sub) = Inr combos \<Longrightarrow>
   rate_substats P W fc (sub # rest) =
     (fst (rate_substats P W fc rest),
      (write_weight W sub)\<lparr>numRolls := Defined combos\<rparr> # snd (rate_substats P W fc rest))"
  by (simp add: write_weight_def split_beta)

lemma rate_substats_frame:
  "map unrated (snd (rate_substats P W fc subs)) = map unrated subs"
proof (induction subs)
  case Nil
  show ?case by simp
next
  case (Cons sub rest)
  show ?case
  proof (cases "call_findCombos fc (P (stat sub)) (amount sub)")
    case (Inl e)
    then show ?thesis
      by (simp add: rate_substats_throw unrated_def write_weight_def del: rate_substats.simps)
  next
    case (Inr combos)
    then show ?thesis using Cons.IH
      by (simp add: rate_substats_return unrated_def write_weight_def del: rate_substats.simps)
  qed
qed

lemma rate_substats_first:
  "\<exists>sub' rest'. snd (rate_substats P W fc (sub # rest)) = sub' # rest'
      \<and> weight sub' = weight (write_weight W sub)"
  by (cases "call_findCombos fc (P (stat sub)) (amount sub)")
     (simp_all add: rate_substats_throw rate_substats_return del: rate_substats.simps)




section \<open>The claims\<close>




text \<open>
  C2. Every combination in the result of \<open>findCombos\<close> has at most six elements.
  The search records a node before it tests the length of the node, and it descends
  from a node of six elements: a node of seven elements is recorded when its rounded
  sum is the target. On the candidates \<^verbatim>\<open>[1]\<close> and the target 7, in whole-number
  mode, the result is the one combination of seven elements.
\<close>

theorem findCombos_seven_elements:
  "findCombos [] (Some [1]) (Fin 7) None = Inr [[1, 1, 1, 1, 1, 1, 1]]"
  by code_simp

text \<open>
  C3. For each attribute, \<open>ratePower\<close> calls the finder with the rounding mode of
  the attribute's kind. The code calls \<^verbatim>\<open>findCombos(rolls, amount)\<close> without the
  kind, so the finder sees \<^verbatim>\<open>undefined\<close> as \<open>stat\<close> and works in whole-number
  mode for every attribute. On \<open>TEST_ARTIFACT\<close>, with the finder bound to the
  function, the one-decimal kinds \<^verbatim>\<open>critRate\<close> and \<^verbatim>\<open>Def%\<close> get no
  combination, although \<^verbatim>\<open>findCombos\<close> with the kind finds \<^verbatim>\<open>[5.8]\<close> for
  \<^verbatim>\<open>Def%\<close>. With the name bound as the module binds it, the first call throws.
\<close>

theorem ratePower_mode:
  "map numRolls (substats (entity (ratePower example_ROLLS example_WEIGHTING
        (Some (findCombos example_DECIMAL_STATS)) TEST_ARTIFACT)))
     = [Defined [], Defined [[31 / 5, 39 / 5], [7, 7]], Defined [], Defined [[21]]]
   \<and> Array_includes example_DECIMAL_STATS (Some ''Def%'')
   \<and> findCombos example_DECIMAL_STATS (example_ROLLS ''Def%'') (Fin (29 / 5)) (Some ''Def%'')
       = Inr [[29 / 5]]
   \<and> thrown (ratePower example_ROLLS example_WEIGHTING required_findCombos TEST_ARTIFACT)
       = Some NotAFunction"
  by code_simp







text \<open>
  C6, as the code has it. A target that cannot be read as a number is \<open>NaN\<close> after
  the coercion; no comparison with it holds, so the search records nothing, and
  \<open>findCombos\<close> returns the empty result on every array of candidates, in every
  mode. Nothing is raised.
\<close>

theorem findCombos_non_numeric_target: "findCombos DECIMAL_STATS (Some rolls) NaN kind = Inr []"
  using findCombos_array[of DECIMAL_STATS rolls NaN kind] by (auto simp: hits_NaN)

text \<open>
  C6, as stated, asks for a failure on such a target. On the candidates \<^verbatim>\<open>[5]\<close>
  the call returns the empty result.
\<close>

theorem findCombos_non_numeric_target_counterexample:
  "findCombos [] (Some [5]) NaN None = Inr []"
  by code_simp





text \<open>
  C9. The search terminates on every array of candidates and every target. Counting
  the depth of the recursion down from eight, no call is left without fuel, and the
  result is that of \<open>subsetSum\<close>: the nodes have at most seven elements. A node
  has one child for each candidate, so a search on \<open>n\<close> candidates makes at most
  \<open>1 + n + \<dots> + n^7\<close> calls.
\<close>

theorem subsetSum_terminates:
  "subsetSum_fuel 8 possibleRolls target found oneDecimal []
     = Some (subsetSum possibleRolls target found oneDecimal [])
   \<and> subsetSum_calls rolls target oneDecimal [] \<le> (\<Sum>i\<le>7. length rolls ^ i)"
  using subsetSum_fuel_enough[of "[]" 8 possibleRolls target found oneDecimal]
        subsetSum_calls_bound[of rolls target oneDecimal "[]"]
  by simp

text \<open>The candidates \<^verbatim>\<open>[1]\<close> and the target 7: eight calls, one found.\<close>

theorem subsetSum_terminates_witness:
  "subsetSum_fuel 8 (Some [1]) (Fin 7) [] False [] = Some (Inr [[1, 1, 1, 1, 1, 1, 1]])
   \<and> subsetSum_calls [1] (Fin 7) False [] \<le> 8"
proof -
  have "subsetSum (Some [1]) (Fin 7) [] False [] = Inr [[1, 1, 1, 1, 1, 1, 1]]"
    by code_simp
  moreover have "(\<Sum>i\<le>7. length [1 :: rat] ^ i) = 8"
    by code_simp
  ultimately show ?thesis
    using subsetSum_terminates[of "Some [1]" "Fin 7" "[]" False "[1]"] by simp
qed

text \<open>
  C10, as the code has it. \<open>ratePower\<close> changes the artifact it is given: it
  writes the properties \<open>weight\<close> and \<open>numRolls\<close> of its substats, the weight of
  the first substat in every case. Every other property of the artifact and of its
  substats is as before.
\<close>

theorem ratePower_frame:
  "\<exists>subs. entity (ratePower P W fc art) = art\<lparr>substats := subs\<rparr>
      \<and> map (\<lambda>sub. sub\<lparr>weight := Missing, numRolls := Missing\<rparr>) subs
          = map (\<lambda>sub. sub\<lparr>weight := Missing, numRolls := Missing\<rparr>) (substats art)
      \<and> (substats art \<noteq> [] \<longrightarrow> weight (hd subs) = weight (write_weight W (hd (substats art))))"
proof -
  define subs where "subs = snd (rate_substats P W fc (substats art))"
  have 1: "entity (ratePower P W fc art) = art\<lparr>substats := subs\<rparr>"
    by (simp add: ratePower_def subs_def split_beta)
  have 2: "map (\<lambda>sub. sub\<lparr>weight := Missing, numRolls := Missing\<rparr>) subs
          = map (\<lambda>sub. sub\<lparr>weight := Missing, numRolls := Missing\<rparr>) (substats art)"
    using rate_substats_frame[of P W fc "substats art"] by (simp add: subs_def unrated_def[abs_def])
  have 3: "substats art \<noteq> [] \<longrightarrow> weight (hd subs) = weight (write_weight W (hd (substats art)))"
  proof
    assume "substats art \<noteq> []"
    then obtain sub rest where sr: "substats art = sub # rest" by (cases "substats art") auto
    from rate_substats_first[of P W fc sub rest] show "weight (hd subs) = weight (write_weight W (hd (substats art)))"
      by (auto simp: subs_def sr)
  qed
  from 1 2 3 show ?thesis by blast
qed

text \<open>\<open>TEST_ARTIFACT\<close>, with the name \<open>findCombos\<close> bound as the module binds it.\<close>

theorem ratePower_frame_witness:
  "substats TEST_ARTIFACT \<noteq> []
   \<and> weight (hd (substats (entity
         (ratePower example_ROLLS example_WEIGHTING required_findCombos TEST_ARTIFACT)))) = Defined 1"
proof -
  have ne: "substats TEST_ARTIFACT \<noteq> []" by (simp add: TEST_ARTIFACT_def)
  have w: "weight (write_weight example_WEIGHTING (hd (substats TEST_ARTIFACT))) = Defined 1"
    by code_simp
  from ratePower_frame[of example_ROLLS example_WEIGHTING required_findCombos TEST_ARTIFACT]
  obtain subs where
    e: "entity (ratePower example_ROLLS example_WEIGHTING required_findCombos TEST_ARTIFACT)
         = TEST_ARTIFACT\<lparr>substats := subs\<rparr>"
    and h: "substats TEST_ARTIFACT \<noteq> [] \<longrightarrow>
           weight (hd subs) = weight (write_weight example_WEIGHTING (hd (substats TEST_ARTIFACT)))"
    by blast
  from h ne w have "weight (hd subs) = Defined 1" by simp
  then show ?thesis using ne by (simp add: e)
qed

text \<open>
  C10, as stated, has the artifact unchanged after the call. \<open>TEST_ARTIFACT\<close> is
  not: its first substat has a weight after the call and had none before.
\<close>

theorem ratePower_frame_counterexample:
  "entity (ratePower example_ROLLS example_WEIGHTING required_findCombos TEST_ARTIFACT) \<noteq> TEST_ARTIFACT
   \<and> weight (hd (substats (entity
         (ratePower example_ROLLS example_WEIGHTING required_findCombos TEST_ARTIFACT)))) = Defined 1
   \<and> weight (hd (substats TEST_ARTIFACT)) = Missing"
  by code_simp

end
